theory Spec2Isabelle
  imports Complex_Main
begin

section \<open>The mortgage calculator of calculator.py\<close>

text \<open>
  The finance functions of \<^verbatim>\<open>calculator.py\<close> work on Python floats. They are embedded
  over the type \<^typ>\<open>real\<close>: every arithmetic operation is the exact one, so rounding,
  overflow and the special values of IEEE doubles are outside this development. What is
  proved of the two functions is proved of their formulas in exact arithmetic, the reading
  under which the round trip and the worked scenario are stated; it says nothing about
  inputs on which double precision departs from it, such as a positive rate so small that
  \<^verbatim>\<open>1 + monthly_interest_rate\<close> rounds to \<^verbatim>\<open>1.0\<close>. The loan term is a Python
  \<^verbatim>\<open>int\<close> (the application parses it with \<^verbatim>\<open>int(...)\<close>) and is an \<^typ>\<open>int\<close>
  here.
\<close>

subsection \<open>Values and exceptions\<close>

text \<open>
  Both finance functions return either a float or an error message (a \<^verbatim>\<open>str\<close>); the
  caller tells them apart with \<^verbatim>\<open>isinstance(x, float)\<close>, which is a case distinction
  on \<open>ret\<close> here.
\<close>

datatype ret = Float real | Str string

datatype py_error = ZeroDivisionError

text \<open>Python's true division of floats raises on a zero divisor.\<close>

definition py_div :: "real \<Rightarrow> real \<Rightarrow> py_error + real" where
  "py_div a b = (if b = 0 then Inl ZeroDivisionError else Inr (a / b))"

subsection \<open>calculate_mortgage_payment (lines 6-49)\<close>

text \<open>
  \<^verbatim>\<open>(1 + monthly_interest_rate) ** total_payments\<close> raises a float to an \<^verbatim>\<open>int\<close>; it is
  \<open>powi\<close>, the power with an integer exponent. The exponent is positive wherever the
  power is computed, since the term has passed its check.
\<close>

definition calculate_mortgage_payment :: "real \<Rightarrow> real \<Rightarrow> int \<Rightarrow> py_error + ret" where
  "calculate_mortgage_payment principal' annual_interest_rate loan_term_years =
     (if principal' \<le> 0 then
        Inr (Str ''Error: Principal must be a positive number.'')
      else if annual_interest_rate < 0 then
        Inr (Str ''Error: Annual interest rate cannot be negative.'')
      else if loan_term_years \<le> 0 then
        Inr (Str ''Error: Loan term in years must be a positive integer.'')
      else
        let monthly_interest_rate = annual_interest_rate / 12;
            total_payments = loan_term_years * 12
        in if monthly_interest_rate = 0 then
             (case py_div principal' (of_int total_payments) of
                Inl e \<Rightarrow> Inl e
              | Inr q \<Rightarrow> Inr (Float q))
           else
             let power_of_i = (1 + monthly_interest_rate) powi total_payments;
                 numerator = monthly_interest_rate * power_of_i;
                 denominator = power_of_i - 1
             in (case py_div numerator denominator of
                   Inl e \<Rightarrow> Inl e
                 | Inr q \<Rightarrow> Inr (Float (principal' * q))))"

subsection \<open>calculate_loan_amount (lines 52-89)\<close>

definition calculate_loan_amount :: "real \<Rightarrow> real \<Rightarrow> int \<Rightarrow> py_error + ret" where
  "calculate_loan_amount monthly_payment annual_interest_rate loan_term_years =
     (if monthly_payment \<le> 0 then
        Inr (Str ''Error: Monthly payment must be a positive number.'')
      else if annual_interest_rate < 0 then
        Inr (Str ''Error: Annual interest rate cannot be negative.'')
      else if loan_term_years \<le> 0 then
        Inr (Str ''Error: Loan term in years must be a positive integer.'')
      else
        let monthly_interest_rate = annual_interest_rate / 12;
            total_payments = loan_term_years * 12
        in if monthly_interest_rate = 0 then
             Inr (Float (monthly_payment * of_int total_payments))
           else
             let power_of_i = (1 + monthly_interest_rate) powi total_payments;
                 numerator = power_of_i - 1;
                 denominator = monthly_interest_rate * power_of_i
             in (case py_div numerator denominator of
                   Inl e \<Rightarrow> Inl e
                 | Inr q \<Rightarrow> Inr (Float (monthly_payment * q))))"

subsection \<open>display_menu_and_get_selection (lines 98-136)\<close>

text \<open>
  The key read by \<^verbatim>\<open>readchar.readkey()\<close> is a string, compared by the
  \<^verbatim>\<open>match\<close> statement against the constants of \<^verbatim>\<open>readchar.key\<close>. That library
  is not part of the repository, so its constants are a parameter of the model.
\<close>

record key_names =
  UP :: string
  DOWN :: string
  ENTER :: string
  ESC :: string
  CTRL_C :: string

text \<open>
  One pass through the \<^verbatim>\<open>match\<close> statement (lines 126-136), with the cases tried in
  the order of the source: the loop goes on with a new \<^verbatim>\<open>selected_index\<close>, the
  function returns, or \<^verbatim>\<open>%\<close> raises on a zero \<^verbatim>\<open>num_options\<close>. Python's
  \<^verbatim>\<open>%\<close> with a positive divisor is the floored remainder, as \<open>mod\<close> on \<^typ>\<open>int\<close>.
\<close>

datatype step = Continue int | Return int | Raise py_error

definition py_mod :: "int \<Rightarrow> int \<Rightarrow> py_error + int" where
  "py_mod a b = (if b = 0 then Inl ZeroDivisionError else Inr (a mod b))"

definition match_key :: "key_names \<Rightarrow> int \<Rightarrow> int \<Rightarrow> string \<Rightarrow> step" where
  "match_key K num_options selected_index key =
     (if key = UP K then
        (case py_mod (selected_index - 1) num_options of
           Inl e \<Rightarrow> Raise e | Inr i \<Rightarrow> Continue i)
      else if key = DOWN K then
        (case py_mod (selected_index + 1) num_options of
           Inl e \<Rightarrow> Raise e | Inr i \<Rightarrow> Continue i)
      else if key = ENTER K \<or> key = '' '' then Return selected_index
      else if key = ESC K \<or> key = CTRL_C K then Return (- 1)
      else Continue selected_index)"

text \<open>
  The \<^verbatim>\<open>while True\<close> loop, run on the list of keys that \<^verbatim>\<open>readkey\<close> delivers.
  The loop has no exit of its own: when the keys run out before a selecting or a
  cancelling key, the function has not returned, which is the value \<open>None\<close>. What the
  loop prints is not part of the model.
\<close>

fun menu_loop :: "key_names \<Rightarrow> int \<Rightarrow> int \<Rightarrow> string list \<Rightarrow> (py_error + int) option" where
  "menu_loop K num_options selected_index [] = None"
| "menu_loop K num_options selected_index (key # keys) =
     (case match_key K num_options selected_index key of
        Continue i \<Rightarrow> menu_loop K num_options i keys
      | Return r \<Rightarrow> Some (Inr r)
      | Raise e \<Rightarrow> Some (Inl e))"

definition display_menu_and_get_selection ::
    "key_names \<Rightarrow> string list \<Rightarrow> string list \<Rightarrow> (py_error + int) option" where
  "display_menu_and_get_selection K options keys =
     menu_loop K (int (length options)) 0 keys"

text \<open>
  The library gives each of the keys that the menu reads a string of its own.
  \<open>example_keys\<close> are strings of the kind it delivers on a POSIX terminal: escape
  sequences for the arrows, line feed, escape and the control character of Ctrl-C.
\<close>

definition keys_distinguished :: "key_names \<Rightarrow> bool" where
  "keys_distinguished K = distinct [UP K, DOWN K, ENTER K, '' '', ESC K, CTRL_C K]"

definition example_keys :: key_names where
  "example_keys =
     \<lparr>UP = [CHR 0x1B, CHR ''['', CHR ''A''],
      DOWN = [CHR 0x1B, CHR ''['', CHR ''B''],
      ENTER = [CHR 0x0A],
      ESC = [CHR 0x1B],
      CTRL_C = [CHR 0x03]\<rparr>"

text \<open>
  The values that \<^verbatim>\<open>selected_index\<close> takes: the one the loop starts with and the one
  after each key, up to the key on which the function returns or raises.
\<close>

fun selected_indices :: "key_names \<Rightarrow> int \<Rightarrow> int \<Rightarrow> string list \<Rightarrow> int list" where
  "selected_indices K num_options selected_index [] = [selected_index]"
| "selected_indices K num_options selected_index (key # keys) =
     selected_index #
     (case match_key K num_options selected_index key of
        Continue i \<Rightarrow> selected_indices K num_options i keys
      | Return r \<Rightarrow> []
      | Raise e \<Rightarrow> [])"

subsection \<open>The affordable-price action of run_mortgage_calculator_app (lines 202-264)\<close>

text \<open>
  The lines the action prints. A formatted number is kept as the number that is
  formatted; the fixed text of a line is its constructor.
\<close>

datatype out_line =
    Result_header
  | Desired_monthly_payment real
  | Annual_interest_rate real
  | Loan_term int
  | Deposit_amount real
  | Deposit_percentage real
  | Rule
  | LTV_warning
  | House_price_inc_deposit real
  | Consisting_of_deposit real
  | Total_house_price real
  | Error_message string
  | Unexpected_error py_error

text \<open>Lines 227-232.\<close>

definition deposit_percentage_of :: "ret \<Rightarrow> real \<Rightarrow> py_error + real" where
  "deposit_percentage_of principal_amount deposit_amount =
     (case principal_amount of
        Float p \<Rightarrow>
          (case py_div deposit_amount (p + deposit_amount) of
             Inl e \<Rightarrow> Inl e
           | Inr q \<Rightarrow> Inr (q * 100))
      | Str s \<Rightarrow> Inr (- 1))"

text \<open>
  The body of the \<^verbatim>\<open>try\<close> block once the four inputs are parsed: the monthly payment,
  the deposit (\<open>None\<close> for an empty answer, which the source reads as \<^verbatim>\<open>0.0\<close>), the
  rate in percent and the term. An exception raised in the block is caught by
  \<^verbatim>\<open>except Exception\<close>, which prints it; nothing is printed before the point where
  one can be raised.
\<close>

definition deposit_amount_of :: "real option \<Rightarrow> real" where
  "deposit_amount_of deposit_input = (case deposit_input of None \<Rightarrow> 0 | Some d \<Rightarrow> d)"

definition affordable_price_action :: "real \<Rightarrow> real option \<Rightarrow> real \<Rightarrow> int \<Rightarrow> out_line list" where
  "affordable_price_action monthly_payment deposit_input rate_percent term_years =
     (let deposit_amount = deposit_amount_of deposit_input;
          annual_rate = rate_percent / 100
      in case calculate_loan_amount monthly_payment annual_rate term_years of
           Inl e \<Rightarrow> [Unexpected_error e]
         | Inr principal_amount \<Rightarrow>
             (case deposit_percentage_of principal_amount deposit_amount of
                Inl e \<Rightarrow> [Unexpected_error e]
              | Inr deposit_percentage \<Rightarrow>
                  (case principal_amount of
                     Float p \<Rightarrow>
                       [Result_header,
                        Desired_monthly_payment monthly_payment,
                        Annual_interest_rate (annual_rate * 100),
                        Loan_term term_years,
                        Deposit_amount deposit_amount,
                        Deposit_percentage deposit_percentage,
                        Rule]
                       @ (if deposit_percentage < 10 then [LTV_warning, Rule] else [])
                       @ [House_price_inc_deposit (p + deposit_amount),
                          Consisting_of_deposit deposit_amount,
                          Total_house_price p,
                          Rule]
                   | Str s \<Rightarrow> [Error_message s])))"

subsection \<open>Comparing a result with an expected figure\<close>

text \<open>
  \<open>returns_within res target tol\<close>: the call returned a float that lies within \<open>tol\<close> of
  \<open>target\<close>. An error message or an exception is not within any tolerance.
\<close>

fun returns_within :: "py_error + ret \<Rightarrow> real \<Rightarrow> real \<Rightarrow> bool" where
  "returns_within (Inr (Float m)) target tol = (\<bar>m - target\<bar> \<le> tol)"
| "returns_within (Inr (Str s)) target tol = False"
| "returns_within (Inl e) target tol = False"

section \<open>Auxiliary facts\<close>

lemma growth_gt_one:
  fixes i :: real and n :: int
  assumes "0 < i" and "0 < n"
  shows "1 < (1 + i) powi n"
proof -
  from assms(2) have n: "0 < nat n" by simp
  have "1 < (1 + i) ^ nat n"
    using assms(1) n by (simp add: one_less_power)
  moreover have "(1 + i) powi n = (1 + i) ^ nat n"
    using assms(2) by (simp add: power_int_def)
  ultimately show ?thesis by simp
qed

lemma payment_nonzero_rate:
  fixes P r :: real and t :: int
  assumes "0 < P" and "0 < r" and "0 < t"
  shows "calculate_mortgage_payment P r t =
           Inr (Float (P * ((r / 12) * (1 + r / 12) powi (t * 12)
                            / ((1 + r / 12) powi (t * 12) - 1))))"
proof -
  have "1 < (1 + r / 12) powi (t * 12)"
    using assms by (intro growth_gt_one) simp_all
  then have "(1 + r / 12) powi (t * 12) - 1 \<noteq> 0" by simp
  then show ?thesis
    using assms by (simp add: calculate_mortgage_payment_def py_div_def Let_def)
qed





text \<open>
  Enclosures of squares and products, used to bound \<open>(1 + 0.045 / 12) ^ 300\<close> by repeated
  squaring without computing the power itself.
\<close>

lemma square_enclosure:
  fixes x lo hi lo' hi' :: real
  assumes "lo \<le> x" and "x \<le> hi" and "0 \<le> lo" and "lo' \<le> lo * lo" and "hi * hi \<le> hi'"
  shows "lo' \<le> x * x \<and> x * x \<le> hi'"
proof
  have "lo * lo \<le> x * x" using assms(1,3) by (intro mult_mono) simp_all
  with assms(4) show "lo' \<le> x * x" by simp
  have "0 \<le> x" using assms(1,3) by simp
  then have "x * x \<le> hi * hi" using assms(2) by (intro mult_mono) simp_all
  with assms(5) show "x * x \<le> hi'" by simp
qed

lemma product_enclosure:
  fixes x y :: real
  assumes "lx \<le> x" and "x \<le> hx" and "ly \<le> y" and "y \<le> hy"
    and "0 \<le> lx" and "0 \<le> ly" and "lo \<le> lx * ly" and "hx * hy \<le> hi"
  shows "lo \<le> x * y \<and> x * y \<le> hi"
proof
  have "lx * ly \<le> x * y" using assms(1,3,5,6) by (intro mult_mono) simp_all
  with assms(7) show "lo \<le> x * y" by simp
  have "0 \<le> x" "0 \<le> y" using assms(1,3,5,6) by simp_all
  then have "x * y \<le> hx * hy" using assms(2,4) by (intro mult_mono) simp_all
  with assms(8) show "x * y \<le> hi" by simp
qed

lemma growth_300:
  "3.07374 \<le> (803 / 800 :: real) ^ 300 \<and> (803 / 800 :: real) ^ 300 \<le> 3.07375"
proof -
  define g :: real where "g = 803 / 800"
  have e1: "1.007514062 \<le> g ^ 2 \<and> g ^ 2 \<le> 1.007514063"
    by (simp add: g_def power2_eq_square)
  have s2: "g ^ 4 = g ^ 2 * g ^ 2" by (simp flip: power_add)
  have e2: "1.015084585 \<le> g ^ 4 \<and> g ^ 4 \<le> 1.015084588"
    unfolding s2 using e1 by (intro square_enclosure [of "1.007514062" _ "1.007514063"]) simp_all
  have s3: "g ^ 8 = g ^ 4 * g ^ 4" by (simp flip: power_add)
  have e3: "1.030396714 \<le> g ^ 8 \<and> g ^ 8 \<le> 1.030396721"
    unfolding s3 using e2 by (intro square_enclosure [of "1.015084585" _ "1.015084588"]) simp_all
  have s4: "g ^ 16 = g ^ 8 * g ^ 8" by (simp flip: power_add)
  have e4: "1.061717388 \<le> g ^ 16 \<and> g ^ 16 \<le> 1.061717403"
    unfolding s4 using e3 by (intro square_enclosure [of "1.030396714" _ "1.030396721"]) simp_all
  have s5: "g ^ 32 = g ^ 16 * g ^ 16" by (simp flip: power_add)
  have e5: "1.127243811 \<le> g ^ 32 \<and> g ^ 32 \<le> 1.127243844"
    unfolding s5 using e4 by (intro square_enclosure [of "1.061717388" _ "1.061717403"]) simp_all
  have s6: "g ^ 64 = g ^ 32 * g ^ 32" by (simp flip: power_add)
  have e6: "1.270678609 \<le> g ^ 64 \<and> g ^ 64 \<le> 1.270678684"
    unfolding s6 using e5 by (intro square_enclosure [of "1.127243811" _ "1.127243844"]) simp_all
  have s7: "g ^ 128 = g ^ 64 * g ^ 64" by (simp flip: power_add)
  have e7: "1.614624127 \<le> g ^ 128 \<and> g ^ 128 \<le> 1.614624318"
    unfolding s7 using e6 by (intro square_enclosure [of "1.270678609" _ "1.270678684"]) simp_all
  have s8: "g ^ 256 = g ^ 128 * g ^ 128" by (simp flip: power_add)
  have e8: "2.607011071 \<le> g ^ 256 \<and> g ^ 256 \<le> 2.607011689"
    unfolding s8 using e7 by (intro square_enclosure [of "1.614624127" _ "1.614624318"]) simp_all
  have t1: "g ^ 288 = g ^ 256 * g ^ 32" by (simp flip: power_add)
  have f1: "2.938737094 \<le> g ^ 288 \<and> g ^ 288 \<le> 2.938737878"
    unfolding t1 using e8 e5
    by (intro product_enclosure [of "2.607011071" _ "2.607011689" "1.127243811" _ "1.127243844"]) simp_all
  have t2: "g ^ 296 = g ^ 288 * g ^ 8" by (simp flip: power_add)
  have f2: "3.028065044 \<le> g ^ 296 \<and> g ^ 296 \<le> 3.028065874"
    unfolding t2 using f1 e3
    by (intro product_enclosure [of "2.938737094" _ "2.938737878" "1.030396714" _ "1.030396721"]) simp_all
  have t3: "g ^ 300 = g ^ 296 * g ^ 4" by (simp flip: power_add)
  have f3: "3.073742148 \<le> g ^ 300 \<and> g ^ 300 \<le> 3.073743001"
    unfolding t3 using f2 e2
    by (intro product_enclosure [of "3.028065044" _ "3.028065874" "1.015084585" _ "1.015084588"]) simp_all
  from f3 show ?thesis unfolding g_def by simp
qed

lemma scenario_enclosure:
  "\<exists>m. calculate_mortgage_payment 200000 0.045 25 = Inr (Float m) \<and>
       1111.66 \<le> m \<and> m \<le> 1111.67"
proof -
  define p :: real where "p = (803 / 800) ^ 300"
  have pw: "(1 + 0.045 / 12 :: real) powi (25 * 12) = p" by (simp add: p_def)
  have "calculate_mortgage_payment 200000 0.045 25 =
     Inr (Float (200000 * ((0.045 / 12) * (1 + 0.045 / 12) powi (25 * 12)
                            / ((1 + 0.045 / 12) powi (25 * 12) - 1))))"
    by (rule payment_nonzero_rate) simp_all
  then have val: "calculate_mortgage_payment 200000 0.045 25 =
     Inr (Float (200000 * ((0.045 / 12) * p / (p - 1))))"
    unfolding pw .
  from growth_300 have lo: "3.07374 \<le> p" and hi: "p \<le> 3.07375" by (simp_all add: p_def)
  from lo have pos: "0 < p - 1" by simp
  have m: "200000 * ((0.045 / 12) * p / (p - 1)) = 750 * p / (p - 1)"
    using pos by (simp add: field_simps)
  have "1111.66 * (p - 1) \<le> 750 * p" using hi by simp
  then have a: "1111.66 \<le> 750 * p / (p - 1)" using pos by (simp add: pos_le_divide_eq)
  have "750 * p \<le> 1111.67 * (p - 1)" using lo by simp
  then have b: "750 * p / (p - 1) \<le> 1111.67" using pos by (simp add: pos_divide_le_eq)
  from val a b show ?thesis unfolding m [symmetric] by blast
qed

lemma match_key_in_range:
  assumes "0 < n" and "0 \<le> i" and "i < n" and "match_key K n i key = Continue j"
  shows "0 \<le> j \<and> j < n"
  using assms by (auto simp: match_key_def py_mod_def split: if_splits)

lemma selected_indices_in_range:
  assumes "0 < n"
  shows "0 \<le> i \<Longrightarrow> i < n \<Longrightarrow> \<forall>j \<in> set (selected_indices K n i keys). 0 \<le> j \<and> j < n"
proof (induction keys arbitrary: i)
  case Nil
  then show ?case by simp
next
  case (Cons key keys)
  show ?case
  proof (cases "match_key K n i key")
    case (Continue j)
    with match_key_in_range [OF assms Cons.prems] have "0 \<le> j" "j < n" by simp_all
    from Cons.IH [OF this] Cons.prems Continue show ?thesis by simp
  next
    case (Return r)
    with Cons.prems show ?thesis by simp
  next
    case (Raise e)
    with Cons.prems show ?thesis by simp
  qed
qed

lemma selected_indices_nonempty: "selected_indices K n i ks \<noteq> []"
  by (cases ks) simp_all

lemma menu_loop_append:
  "menu_loop K n i ks = None \<Longrightarrow>
   menu_loop K n i (ks @ rest) = menu_loop K n (last (selected_indices K n i ks)) rest"
proof (induction ks arbitrary: i)
  case Nil
  show ?case by simp
next
  case (Cons key ks)
  from Cons.prems obtain j where j: "match_key K n i key = Continue j"
    and none: "menu_loop K n j ks = None"
    by (cases "match_key K n i key") simp_all
  from Cons.IH [OF none] j show ?case
    by (simp add: selected_indices_nonempty)
qed

lemma last_selected_indices_snoc:
  "menu_loop K n i ks = None \<Longrightarrow>
   last (selected_indices K n i (ks @ [key])) =
     (case match_key K n (last (selected_indices K n i ks)) key of
        Continue j \<Rightarrow> j
      | Return r \<Rightarrow> last (selected_indices K n i ks)
      | Raise e \<Rightarrow> last (selected_indices K n i ks))"
proof (induction ks arbitrary: i)
  case Nil
  show ?case by (simp split: step.split)
next
  case (Cons k ks)
  from Cons.prems obtain j where j: "match_key K n i k = Continue j"
    and none: "menu_loop K n j ks = None"
    by (cases "match_key K n i k") simp_all
  from j have l: "last (selected_indices K n i (k # ks)) = last (selected_indices K n j ks)"
    by (simp add: selected_indices_nonempty)
  from j have "last (selected_indices K n i ((k # ks) @ [key])) =
      last (selected_indices K n j (ks @ [key]))"
    by (simp add: selected_indices_nonempty)
  with Cons.IH [OF none] show ?case unfolding l by simp
qed

lemma action_on_float:
  assumes "calculate_loan_amount M (rp / 100) t = Inr (Float p)"
    and "p + deposit_amount_of dep \<noteq> 0"
  shows "affordable_price_action M dep rp t =
           [Result_header, Desired_monthly_payment M, Annual_interest_rate (rp / 100 * 100),
            Loan_term t, Deposit_amount (deposit_amount_of dep),
            Deposit_percentage (deposit_amount_of dep / (p + deposit_amount_of dep) * 100),
            Rule]
           @ (if deposit_amount_of dep / (p + deposit_amount_of dep) * 100 < 10
              then [LTV_warning, Rule] else [])
           @ [House_price_inc_deposit (p + deposit_amount_of dep),
              Consisting_of_deposit (deposit_amount_of dep), Total_house_price p, Rule]"
  using assms
  by (simp add: affordable_price_action_def deposit_percentage_of_def py_div_def Let_def)

section \<open>The finance functions\<close>



text \<open>
  C8. The concrete scenario: \<^verbatim>\<open>calculate_mortgage_payment(200000, 0.045, 25)\<close>. The
  claimed figure, within 0.01 of 1111.48, does not hold: the payment lies between 1111.66
  and 1111.67.
\<close>

theorem scenario_payment_counterexample:
  "\<not> returns_within (calculate_mortgage_payment 200000 0.045 25) 1111.48 0.01"
proof -
  from scenario_enclosure obtain m where
    v: "calculate_mortgage_payment 200000 0.045 25 = Inr (Float m)"
    and lo: "1111.66 \<le> m" and hi: "m \<le> 1111.67" by blast
  from lo have "\<not> \<bar>m - 1111.48\<bar> \<le> 0.01" by (simp add: abs_le_iff)
  then show ?thesis unfolding v by simp
qed

text \<open>
  C8, amended: \<^verbatim>\<open>calculate_mortgage_payment(200000, 0.045, 25)\<close> returns a monthly
  payment within 0.01 of 1111.66.
\<close>

theorem scenario_payment_amended:
  "returns_within (calculate_mortgage_payment 200000 0.045 25) 1111.66 0.01"
proof -
  from scenario_enclosure obtain m where
    v: "calculate_mortgage_payment 200000 0.045 25 = Inr (Float m)"
    and lo: "1111.66 \<le> m" and hi: "m \<le> 1111.67" by blast
  from lo hi have "\<bar>m - 1111.66\<bar> \<le> 0.01" by (simp add: abs_le_iff)
  then show ?thesis unfolding v by simp
qed

section \<open>The menu\<close>

text \<open>
  C6. Menu navigation over a non-empty list of \<open>n\<close> options, the keys having strings of
  their own. On the last option (index \<open>n - 1\<close>) the down arrow moves the highlight to
  index 0, and on the first option the up arrow moves it to index \<open>n - 1\<close>: the
  \<^verbatim>\<open>match\<close> statement computes that index and the loop goes on with it. Escape and
  Ctrl-C make the function return \<open>-1\<close> whatever the highlighted index \<open>i\<close> is; Enter and
  Space make it return \<open>i\<close>. The same holds of \<^verbatim>\<open>display_menu_and_get_selection\<close>
  itself: from the start, up then Enter returns \<open>n - 1\<close> and up, down, Space returns 0;
  and after any keys \<open>ks\<close> on which it has not returned, the highlight being the last
  entry of the trace of \<^verbatim>\<open>selected_index\<close>, Escape and Ctrl-C return \<open>-1\<close>, Enter and
  Space return the highlighted index, the down arrow takes the highlight from \<open>n - 1\<close> to
  0 and the up arrow from 0 to \<open>n - 1\<close>.
\<close>

theorem menu_navigation:
  assumes "keys_distinguished K" and "options \<noteq> []"
  shows "match_key K (int (length options)) (int (length options) - 1) (DOWN K) = Continue 0 \<and>
         match_key K (int (length options)) 0 (UP K) = Continue (int (length options) - 1) \<and>
         menu_loop K (int (length options)) (int (length options) - 1) (DOWN K # keys) =
           menu_loop K (int (length options)) 0 keys \<and>
         menu_loop K (int (length options)) 0 (UP K # keys) =
           menu_loop K (int (length options)) (int (length options) - 1) keys \<and>
         menu_loop K (int (length options)) i (ESC K # keys) = Some (Inr (- 1)) \<and>
         menu_loop K (int (length options)) i (CTRL_C K # keys) = Some (Inr (- 1)) \<and>
         menu_loop K (int (length options)) i (ENTER K # keys) = Some (Inr i) \<and>
         menu_loop K (int (length options)) i ('' '' # keys) = Some (Inr i) \<and>
         display_menu_and_get_selection K options (UP K # ENTER K # keys) =
           Some (Inr (int (length options) - 1)) \<and>
         display_menu_and_get_selection K options (UP K # DOWN K # '' '' # keys) =
           Some (Inr 0) \<and>
         (display_menu_and_get_selection K options ks = None \<longrightarrow>
            display_menu_and_get_selection K options (ks @ ESC K # keys) = Some (Inr (- 1)) \<and>
            display_menu_and_get_selection K options (ks @ CTRL_C K # keys) = Some (Inr (- 1)) \<and>
            display_menu_and_get_selection K options (ks @ ENTER K # keys) =
              Some (Inr (last (selected_indices K (int (length options)) 0 ks))) \<and>
            display_menu_and_get_selection K options (ks @ '' '' # keys) =
              Some (Inr (last (selected_indices K (int (length options)) 0 ks))) \<and>
            (last (selected_indices K (int (length options)) 0 ks) = int (length options) - 1 \<longrightarrow>
               last (selected_indices K (int (length options)) 0 (ks @ [DOWN K])) = 0) \<and>
            (last (selected_indices K (int (length options)) 0 ks) = 0 \<longrightarrow>
               last (selected_indices K (int (length options)) 0 (ks @ [UP K])) =
                 int (length options) - 1))"
proof -
  define n where "n = int (length options)"
  from assms(2) have n: "0 < n" by (simp add: n_def)
  from assms(1) have d: "DOWN K \<noteq> UP K" "ENTER K \<noteq> UP K" "ENTER K \<noteq> DOWN K"
    "'' '' \<noteq> UP K" "'' '' \<noteq> DOWN K"
    "ESC K \<noteq> UP K" "ESC K \<noteq> DOWN K" "ESC K \<noteq> ENTER K" "ESC K \<noteq> '' ''"
    "CTRL_C K \<noteq> UP K" "CTRL_C K \<noteq> DOWN K" "CTRL_C K \<noteq> ENTER K" "CTRL_C K \<noteq> '' ''"
    by (auto simp: keys_distinguished_def)
  have down: "match_key K n (n - 1) (DOWN K) = Continue 0"
    using n d by (simp add: match_key_def py_mod_def)
  have "(- 1) mod n = n - 1" using n by (simp add: zmod_minus1)
  then have up: "match_key K n 0 (UP K) = Continue (n - 1)"
    using n by (simp add: match_key_def py_mod_def)
  have loop_down: "menu_loop K n (n - 1) (DOWN K # keys) = menu_loop K n 0 keys" for keys
    by (simp add: down)
  have loop_up: "menu_loop K n 0 (UP K # keys) = menu_loop K n (n - 1) keys" for keys
    by (simp add: up)
  have esc: "menu_loop K n i (ESC K # keys) = Some (Inr (- 1))" for i keys
    using d by (simp add: match_key_def)
  have ctrl: "menu_loop K n i (CTRL_C K # keys) = Some (Inr (- 1))" for i keys
    using d by (simp add: match_key_def)
  have enter: "menu_loop K n i (ENTER K # keys) = Some (Inr i)" for i keys
    using d by (simp add: match_key_def)
  have space: "menu_loop K n i ('' '' # keys) = Some (Inr i)" for i keys
    using d by (simp add: match_key_def)
  have fn1: "display_menu_and_get_selection K options (UP K # ENTER K # keys) =
      Some (Inr (n - 1))"
    unfolding display_menu_and_get_selection_def n_def [symmetric]
    by (simp only: loop_up enter)
  have fn2: "display_menu_and_get_selection K options (UP K # DOWN K # '' '' # keys) =
      Some (Inr 0)"
    unfolding display_menu_and_get_selection_def n_def [symmetric]
    by (simp only: loop_up loop_down space)
  have reach: "display_menu_and_get_selection K options ks = None \<longrightarrow>
      display_menu_and_get_selection K options (ks @ ESC K # keys) = Some (Inr (- 1)) \<and>
      display_menu_and_get_selection K options (ks @ CTRL_C K # keys) = Some (Inr (- 1)) \<and>
      display_menu_and_get_selection K options (ks @ ENTER K # keys) =
        Some (Inr (last (selected_indices K n 0 ks))) \<and>
      display_menu_and_get_selection K options (ks @ '' '' # keys) =
        Some (Inr (last (selected_indices K n 0 ks))) \<and>
      (last (selected_indices K n 0 ks) = n - 1 \<longrightarrow>
         last (selected_indices K n 0 (ks @ [DOWN K])) = 0) \<and>
      (last (selected_indices K n 0 ks) = 0 \<longrightarrow>
         last (selected_indices K n 0 (ks @ [UP K])) = n - 1)"
  proof
    assume "display_menu_and_get_selection K options ks = None"
    then have none: "menu_loop K n 0 ks = None"
      by (simp add: display_menu_and_get_selection_def n_def)
    note app = menu_loop_append [OF none]
    note snoc = last_selected_indices_snoc [OF none]
    show "display_menu_and_get_selection K options (ks @ ESC K # keys) = Some (Inr (- 1)) \<and>
      display_menu_and_get_selection K options (ks @ CTRL_C K # keys) = Some (Inr (- 1)) \<and>
      display_menu_and_get_selection K options (ks @ ENTER K # keys) =
        Some (Inr (last (selected_indices K n 0 ks))) \<and>
      display_menu_and_get_selection K options (ks @ '' '' # keys) =
        Some (Inr (last (selected_indices K n 0 ks))) \<and>
      (last (selected_indices K n 0 ks) = n - 1 \<longrightarrow>
         last (selected_indices K n 0 (ks @ [DOWN K])) = 0) \<and>
      (last (selected_indices K n 0 ks) = 0 \<longrightarrow>
         last (selected_indices K n 0 (ks @ [UP K])) = n - 1)"
      unfolding display_menu_and_get_selection_def n_def [symmetric]
      by (simp only: app snoc esc ctrl enter space) (simp add: down up)
  qed
  from down up loop_down loop_up esc ctrl enter space fn1 fn2 reach
  show ?thesis unfolding n_def by blast
qed

theorem menu_navigation_witness:
  "keys_distinguished example_keys \<and> [''a'', ''b'', ''c''] \<noteq> [] \<and>
   match_key example_keys 3 2 (DOWN example_keys) = Continue 0 \<and>
   match_key example_keys 3 0 (UP example_keys) = Continue 2 \<and>
   menu_loop example_keys 3 2 [DOWN example_keys, ENTER example_keys] =
     menu_loop example_keys 3 0 [ENTER example_keys] \<and>
   menu_loop example_keys 3 0 [UP example_keys, ENTER example_keys] =
     menu_loop example_keys 3 2 [ENTER example_keys] \<and>
   menu_loop example_keys 3 1 [ESC example_keys, ENTER example_keys] = Some (Inr (- 1)) \<and>
   menu_loop example_keys 3 1 [CTRL_C example_keys, ENTER example_keys] = Some (Inr (- 1)) \<and>
   menu_loop example_keys 3 1 [ENTER example_keys, ENTER example_keys] = Some (Inr 1) \<and>
   menu_loop example_keys 3 1 ['' '', ENTER example_keys] = Some (Inr 1) \<and>
   display_menu_and_get_selection example_keys [''a'', ''b'', ''c'']
     [UP example_keys, ENTER example_keys, ENTER example_keys] = Some (Inr 2) \<and>
   display_menu_and_get_selection example_keys [''a'', ''b'', ''c'']
     [UP example_keys, DOWN example_keys, '' '', ENTER example_keys] = Some (Inr 0) \<and>
   display_menu_and_get_selection example_keys [''a'', ''b'', ''c'']
     [DOWN example_keys, DOWN example_keys] = None \<and>
   display_menu_and_get_selection example_keys [''a'', ''b'', ''c'']
     [DOWN example_keys, DOWN example_keys, ESC example_keys, ENTER example_keys] =
     Some (Inr (- 1)) \<and>
   display_menu_and_get_selection example_keys [''a'', ''b'', ''c'']
     [DOWN example_keys, DOWN example_keys, CTRL_C example_keys, ENTER example_keys] =
     Some (Inr (- 1)) \<and>
   display_menu_and_get_selection example_keys [''a'', ''b'', ''c'']
     [DOWN example_keys, DOWN example_keys, ENTER example_keys, ENTER example_keys] =
     Some (Inr 2) \<and>
   display_menu_and_get_selection example_keys [''a'', ''b'', ''c'']
     [DOWN example_keys, DOWN example_keys, '' '', ENTER example_keys] = Some (Inr 2) \<and>
   last (selected_indices example_keys 3 0 [DOWN example_keys, DOWN example_keys]) = 2 \<and>
   last (selected_indices example_keys 3 0
     [DOWN example_keys, DOWN example_keys, DOWN example_keys]) = 0 \<and>
   display_menu_and_get_selection example_keys [''a'', ''b'', ''c''] [''x''] = None \<and>
   last (selected_indices example_keys 3 0 [''x'']) = 0 \<and>
   last (selected_indices example_keys 3 0 [''x'', UP example_keys]) = 2"
proof -
  have k: "keys_distinguished example_keys"
    by (simp add: keys_distinguished_def example_keys_def)
  have o: "[''a'', ''b'', ''c''] \<noteq> ([] :: string list)" by simp
  have r1: "display_menu_and_get_selection example_keys [''a'', ''b'', ''c'']
     [DOWN example_keys, DOWN example_keys] = None"
    by (simp add: display_menu_and_get_selection_def example_keys_def match_key_def py_mod_def)
  have r2: "display_menu_and_get_selection example_keys [''a'', ''b'', ''c''] [''x''] = None"
    by (simp add: display_menu_and_get_selection_def example_keys_def match_key_def py_mod_def)
  have t1: "last (selected_indices example_keys 3 0 [DOWN example_keys, DOWN example_keys]) = 2"
    by (simp add: example_keys_def match_key_def py_mod_def)
  have t2: "last (selected_indices example_keys 3 0 [''x'']) = 0"
    by (simp add: example_keys_def match_key_def py_mod_def)
  from menu_navigation [OF k o, of "[ENTER example_keys]" 1
      "[DOWN example_keys, DOWN example_keys]"]
    menu_navigation [OF k o, of "[ENTER example_keys]" 1 "[''x'']"]
    k r1 r2 t1 t2
  show ?thesis by simp
qed

text \<open>
  C10. The highlight stays in range: over a non-empty list of \<open>n\<close> options, every value
  that \<^verbatim>\<open>selected_index\<close> takes, from the start of the function on and after every
  key, lies in \<open>0 \<le> index < n\<close>; and a key other than the two arrows, Enter, Space,
  Escape and Ctrl-C leaves the index as it is and the loop goes on with the next key.
\<close>

theorem menu_index_invariant:
  assumes "options \<noteq> []"
  shows "(\<forall>j \<in> set (selected_indices K (int (length options)) 0 keys).
            0 \<le> j \<and> j < int (length options)) \<and>
         (key \<notin> {UP K, DOWN K, ENTER K, '' '', ESC K, CTRL_C K} \<longrightarrow>
            match_key K (int (length options)) i key = Continue i \<and>
            menu_loop K (int (length options)) i (key # keys') =
              menu_loop K (int (length options)) i keys')"
proof -
  from assms have n: "0 < int (length options)" by simp
  have "\<forall>j \<in> set (selected_indices K (int (length options)) 0 keys).
            0 \<le> j \<and> j < int (length options)"
    using n by (intro selected_indices_in_range) simp_all
  moreover have "key \<notin> {UP K, DOWN K, ENTER K, '' '', ESC K, CTRL_C K} \<longrightarrow>
            match_key K (int (length options)) i key = Continue i \<and>
            menu_loop K (int (length options)) i (key # keys') =
              menu_loop K (int (length options)) i keys'"
    by (simp add: match_key_def)
  ultimately show ?thesis by blast
qed

theorem menu_index_invariant_witness:
  "[''a'', ''b'', ''c''] \<noteq> ([] :: string list) \<and>
   selected_indices example_keys 3 0
     [UP example_keys, ''x'', DOWN example_keys, DOWN example_keys, ENTER example_keys] =
     [0, 2, 2, 0, 1] \<and>
   ''x'' \<notin> {UP example_keys, DOWN example_keys, ENTER example_keys, '' '',
            ESC example_keys, CTRL_C example_keys} \<and>
   match_key example_keys 3 2 ''x'' = Continue 2 \<and>
   menu_loop example_keys 3 2 [''x'', ENTER example_keys] =
     menu_loop example_keys 3 2 [ENTER example_keys]"
proof -
  have o: "[''a'', ''b'', ''c''] \<noteq> ([] :: string list)" by simp
  have x: "''x'' \<notin> {UP example_keys, DOWN example_keys, ENTER example_keys, '' '',
            ESC example_keys, CTRL_C example_keys}"
    by (simp add: example_keys_def)
  from menu_index_invariant [OF o, of example_keys
      "[UP example_keys, ''x'', DOWN example_keys, DOWN example_keys, ENTER example_keys]"
      "''x''" 2 "[ENTER example_keys]"] x o
  show ?thesis by (simp add: example_keys_def match_key_def py_mod_def)
qed

section \<open>The affordable-price action\<close>

text \<open>
  C7. Low-deposit warning: when \<^verbatim>\<open>calculate_loan_amount\<close> returns a float \<open>p\<close> and the
  division by \<open>p + deposit\<close> does not raise, the result is printed, the deposit percentage
  it shows is \<open>deposit / (p + deposit) * 100\<close> and no other, and the loan-to-value warning
  is among the printed lines if and only if that percentage is strictly below 10.
\<close>

theorem low_deposit_warning:
  assumes "calculate_loan_amount M (rp / 100) t = Inr (Float p)"
    and "p + deposit_amount_of dep \<noteq> 0"
  shows "Result_header \<in> set (affordable_price_action M dep rp t) \<and>
         (Deposit_percentage x \<in> set (affordable_price_action M dep rp t) \<longleftrightarrow>
            x = deposit_amount_of dep / (p + deposit_amount_of dep) * 100) \<and>
         (LTV_warning \<in> set (affordable_price_action M dep rp t) \<longleftrightarrow>
            deposit_amount_of dep / (p + deposit_amount_of dep) * 100 < 10)"
  unfolding action_on_float [OF assms] by auto

theorem low_deposit_warning_witness:
  "calculate_loan_amount 500 (0 / 100) 25 = Inr (Float 150000) \<and>
   150000 + deposit_amount_of (Some 10000) \<noteq> 0 \<and>
   Result_header \<in> set (affordable_price_action 500 (Some 10000) 0 25) \<and>
   Deposit_percentage 6.25 \<in> set (affordable_price_action 500 (Some 10000) 0 25) \<and>
   LTV_warning \<in> set (affordable_price_action 500 (Some 10000) 0 25)"
proof -
  have a: "calculate_loan_amount 500 (0 / 100) 25 = Inr (Float 150000)"
    by (simp add: calculate_loan_amount_def)
  have b: "150000 + deposit_amount_of (Some 10000) \<noteq> 0"
    by (simp add: deposit_amount_of_def)
  from low_deposit_warning [OF a b, of "6.25"] a b show ?thesis
    by (simp add: deposit_amount_of_def)
qed

end
